theory Spec2Isabelle
  imports Complex_Main
begin

section \<open>Numbers\<close>

text \<open>
  The source is TypeScript; its \<open>number\<close> values are modelled as \<^typ>\<open>real\<close>: finite
  values with exact arithmetic (no \<open>NaN\<close>, no infinity, no rounding of the double
  format). Bytes of a pixel buffer and parsed colour channels are \<^typ>\<open>nat\<close>.

  \<open>Math.round\<close> rounds to the nearest integer, a tie going up.
\<close>

definition Math_round :: "real \<Rightarrow> int" where
  "Math_round x = \<lfloor>x + 1 / 2\<rfloor>"

section \<open>Colour helpers\<close>

subsection \<open>hexToRgb\<close>

text \<open>
  \<^verbatim>\<open>/^#?([a-f\d]{2})([a-f\d]{2})([a-f\d]{2})$/i\<close>: an optional \<open>#\<close>, then exactly six
  characters of \<open>0-9\<close>, \<open>a-f\<close>, \<open>A-F\<close>, and nothing else. A colour is the triple
  \<open>(r, g, b)\<close> of the object the source builds.
\<close>

type_synonym rgb = "nat \<times> nat \<times> nat"

definition hexTable :: "(char \<times> nat) list" where
  "hexTable =
     zip ''0123456789abcdef'' [0 ..< 16] @ zip ''ABCDEF'' [10 ..< 16]"

definition isHexDigit :: "char \<Rightarrow> bool" where
  "isHexDigit c = (map_of hexTable c \<noteq> None)"

definition digitValue :: "char \<Rightarrow> nat" where
  "digitValue c = (case map_of hexTable c of Some v \<Rightarrow> v | None \<Rightarrow> 0)"

text \<open>\<open>parseInt(s, 16)\<close> on a string of hexadecimal digits.\<close>

definition parseInt16 :: "string \<Rightarrow> nat" where
  "parseInt16 s = foldl (\<lambda>acc c. 16 * acc + digitValue c) 0 s"

definition stripHash :: "string \<Rightarrow> string" where
  "stripHash hex = (case hex of [] \<Rightarrow> [] | c # rest \<Rightarrow> if c = CHR ''#'' then rest else hex)"

definition hexToRgb :: "string \<Rightarrow> rgb option" where
  "hexToRgb hex =
     (let body = stripHash hex in
      if length body = 6 \<and> list_all isHexDigit body
      then Some (parseInt16 (take 2 body),
                 parseInt16 (take 2 (drop 2 body)),
                 parseInt16 (take 2 (drop 4 body)))
      else None)"

subsection \<open>rgbToHex\<close>

text \<open>
  \<^verbatim>\<open>'#' + [r, g, b].map(x => Math.min(255, Math.max(0, Math.round(x)))
            .toString(16).padStart(2, '0')).join('')\<close>
\<close>

definition hexDigit :: "nat \<Rightarrow> char" where
  "hexDigit d = ''0123456789abcdef'' ! d"

fun toString16 :: "nat \<Rightarrow> string" where
  "toString16 n =
     (if n < 16 then [hexDigit n] else toString16 (n div 16) @ [hexDigit (n mod 16)])"

declare toString16.simps [simp del]

definition padStart :: "nat \<Rightarrow> char \<Rightarrow> string \<Rightarrow> string" where
  "padStart n c s = replicate (n - length s) c @ s"

definition clampRound :: "real \<Rightarrow> nat" where
  "clampRound x = nat (min 255 (max 0 (Math_round x)))"

definition channelHex :: "real \<Rightarrow> string" where
  "channelHex x = padStart 2 (CHR ''0'') (toString16 (clampRound x))"

definition rgbToHex :: "real \<Rightarrow> real \<Rightarrow> real \<Rightarrow> string" where
  "rgbToHex r g b = CHR ''#'' # concat (map channelHex [r, g, b])"

subsection \<open>getHexLuminance and adjustColor\<close>

definition getHexLuminance :: "string \<Rightarrow> real" where
  "getHexLuminance hex =
     (case hexToRgb hex of
        None \<Rightarrow> 0
      | Some (r, g, b) \<Rightarrow> 0.2126 * real r + 0.7152 * real g + 0.0722 * real b)"

text \<open>\<open>const isDarkBg = bgLum < 128\<close>, as the renderer and the theme extraction compute it.\<close>

definition isDarkBg :: "string \<Rightarrow> bool" where
  "isDarkBg backgroundColor = (getHexLuminance backgroundColor < 128)"

definition adjust :: "real \<Rightarrow> real \<Rightarrow> nat \<Rightarrow> real" where
  "adjust bFactor cFactor val = (real val - 128) * cFactor + 128 + bFactor"

definition adjustColor :: "string \<Rightarrow> real \<Rightarrow> real \<Rightarrow> string" where
  "adjustColor hex brightness contrast =
     (case hexToRgb hex of
        None \<Rightarrow> hex
      | Some (r, g, b) \<Rightarrow>
          (let bFactor = (brightness - 100) * 1.5;
               cFactor = contrast / 100
           in rgbToHex (adjust bFactor cFactor r) (adjust bFactor cFactor g)
                (adjust bFactor cFactor b)))"

section \<open>Theme extraction\<close>



text \<open>
  The pixel buffer \<open>data\<close> is the \<open>Uint8ClampedArray\<close> of \<open>getImageData\<close>: a flat list
  of bytes, four (R, G, B, A) per pixel, in raster order. A read past its end gives
  \<open>undefined\<close> in the source, which no value of this model stands for: the two scans
  return \<open>None\<close> there. (\<open>getImageData(0, 0, 50, 50)\<close> returns 10000 bytes, so neither
  scan reads past the end of a decoded image.)
\<close>

subsection \<open>The dominant colour\<close>

text \<open>
  \<^verbatim>\<open>const r = Math.round(data[i] / 10) * 10\<close>. The key \<^verbatim>\<open>`${r},${g},${b}`\<close> of
  \<open>colorCounts\<close> is modelled by the triple itself (the decimal rendering of three
  integers separated by commas determines them).
\<close>

definition quantize :: "nat \<Rightarrow> int" where
  "quantize v = Math_round (real v / 10) * 10"

record scan_state =
  colorCounts :: "int \<times> int \<times> int \<Rightarrow> nat option"
  maxCount :: nat
  dominantColor :: rgb

definition initial_scan :: scan_state where
  "initial_scan = \<lparr>colorCounts = Map.empty, maxCount = 0, dominantColor = (0, 0, 0)\<rparr>"

text \<open>The body of the first loop, at a pixel with the bytes \<open>r0\<close>, \<open>g0\<close>, \<open>b0\<close>.\<close>

definition tally :: "nat \<Rightarrow> nat \<Rightarrow> nat \<Rightarrow> scan_state \<Rightarrow> scan_state" where
  "tally r0 g0 b0 st =
     (let key = (quantize r0, quantize g0, quantize b0);
          cnt = (case colorCounts st key of None \<Rightarrow> 0 | Some c \<Rightarrow> c) + 1;
          counts = (colorCounts st)(key \<mapsto> cnt)
      in if cnt > maxCount st
         then \<lparr>colorCounts = counts, maxCount = cnt, dominantColor = (r0, g0, b0)\<rparr>
         else st\<lparr>colorCounts := counts\<rparr>)"

function dominantScan :: "nat list \<Rightarrow> nat \<Rightarrow> scan_state \<Rightarrow> scan_state option" where
  "dominantScan data i st =
     (if i < length data
      then (if i + 2 < length data
            then dominantScan data (i + 4)
                   (tally (data ! i) (data ! (i + 1)) (data ! (i + 2)) st)
            else None)
      else Some st)"
  by pat_completeness auto
termination
  by (relation "measure (\<lambda>(data, i, st). length data - i)") auto

declare dominantScan.simps [simp del]

subsection \<open>The accent colours\<close>



subsection \<open>generateThemeFromImage\<close>




subsection \<open>The specification's reading of the dominant colour\<close>

text \<open>
  Pixel \<open>k\<close> of the buffer, its bucket, and how often a bucket occurs among the first
  \<open>m\<close> pixels.
\<close>

definition pixelAt :: "nat list \<Rightarrow> nat \<Rightarrow> rgb" where
  "pixelAt data k = (data ! (4 * k), data ! (4 * k + 1), data ! (4 * k + 2))"

definition bucket :: "rgb \<Rightarrow> int \<times> int \<times> int" where
  "bucket p = (case p of (r0, g0, b0) \<Rightarrow> (quantize r0, quantize g0, quantize b0))"

definition occurrences :: "nat list \<Rightarrow> int \<times> int \<times> int \<Rightarrow> nat \<Rightarrow> nat" where
  "occurrences data key m = count_list (map (\<lambda>k. bucket (pixelAt data k)) [0 ..< m]) key"

text \<open>
  The specification's dominant colour: the most frequent bucket, a tie going to the
  bucket met first, and of that bucket the pixel seen first. That is the first pixel, in
  raster order, whose bucket is a most frequent one.
\<close>

definition spec_dominantColor :: "nat list \<Rightarrow> rgb option" where
  "spec_dominantColor data =
     (let pixels = map (pixelAt data) [0 ..< length data div 4];
          buckets = map bucket pixels
      in find (\<lambda>p. list_all (\<lambda>q. count_list buckets (bucket q) \<le> count_list buckets (bucket p))
                      pixels) pixels)"

section \<open>Drawing\<close>

text \<open>
  A drawing function is modelled by the calls it makes, in order: the context \<open>ctx\<close> is
  the list of the calls made on it so far, and a renderer returns it extended. A style
  that the source reads from the palette can be \<open>undefined\<close> (\<open>None\<close>).
\<close>

datatype canvas_call =
    Save
  | Restore
  | SetFillStyle "string option"
  | SetStrokeStyle string
  | SetLineWidth real
  | SetGlobalAlpha real
  | SetShadowBlur real
  | SetShadowColor "string option"
  | SetShadowOffsetX real
  | SetShadowOffsetY real
  | FillRect real real real real
  | RoundRect real real real real real
  | BeginPath
  | MoveTo real real
  | LineTo real real
  | Fill
  | Stroke
  | GetByteTimeDomainData

subsection \<open>drawPianoRoll\<close>

record NoteEvent =
  "note" :: real
  velocity :: real
  startTime :: real
  duration :: real
  track :: "real option"
  channel :: "real option"

definition TIME_WINDOW :: real where
  "TIME_WINDOW = 10"

definition PX_PER_SEC :: "real \<Rightarrow> real" where
  "PX_PER_SEC width = width / TIME_WINDOW"

definition MIN_NOTE :: real where
  "MIN_NOTE = 21"

definition MAX_NOTE :: real where
  "MAX_NOTE = 108"

definition TOTAL_KEYS :: real where
  "TOTAL_KEYS = MAX_NOTE - MIN_NOTE + 1"

definition NOTE_HEIGHT :: "real \<Rightarrow> real" where
  "NOTE_HEIGHT height = height / TOTAL_KEYS"

definition PLAYHEAD_X :: "real \<Rightarrow> real" where
  "PLAYHEAD_X width = width * 0.25"

text \<open>The constants \<open>relativeTime\<close>, \<open>x\<close>, \<open>w\<close> and \<open>y\<close> of the loop body.\<close>

definition relativeTime :: "real \<Rightarrow> 'a NoteEvent_scheme \<Rightarrow> real" where
  "relativeTime currentTime n = startTime n - currentTime"

definition note_x :: "real \<Rightarrow> real \<Rightarrow> 'a NoteEvent_scheme \<Rightarrow> real" where
  "note_x currentTime width n = PLAYHEAD_X width + relativeTime currentTime n * PX_PER_SEC width"

definition note_w :: "real \<Rightarrow> 'a NoteEvent_scheme \<Rightarrow> real" where
  "note_w width n = max (duration n * PX_PER_SEC width) 3"

definition note_y :: "real \<Rightarrow> 'a NoteEvent_scheme \<Rightarrow> real" where
  "note_y height n =
     (let noteIndex = note n - MIN_NOTE
      in height - noteIndex * NOTE_HEIGHT height - NOTE_HEIGHT height)"

text \<open>\<open>if (x + w > -100 && x < width + 100)\<close>\<close>

definition onScreen :: "real \<Rightarrow> real \<Rightarrow> 'a NoteEvent_scheme \<Rightarrow> bool" where
  "onScreen currentTime width n =
     (note_x currentTime width n + note_w width n > - 100 \<and>
      note_x currentTime width n < width + 100)"

text \<open>
  \<open>(n.track || 0) + (n.channel || 0)\<close>: an absent field (and 0) counts as 0. The
  remainder \<open>%\<close> has the sign of the dividend and is \<open>NaN\<close> (\<open>None\<close>) for a zero divisor;
  \<open>palette[colorIdx]\<close> is \<open>undefined\<close> unless the index is a whole number within the
  palette.
\<close>

definition orZero :: "real option \<Rightarrow> real" where
  "orZero v = (case v of None \<Rightarrow> 0 | Some x \<Rightarrow> x)"

definition discriminator :: "'a NoteEvent_scheme \<Rightarrow> real" where
  "discriminator n = orZero (track n) + orZero (channel n)"

definition js_trunc :: "real \<Rightarrow> int" where
  "js_trunc x = (if 0 \<le> x then \<lfloor>x\<rfloor> else \<lceil>x\<rceil>)"

definition js_rem :: "real \<Rightarrow> real \<Rightarrow> real option" where
  "js_rem a b = (if b = 0 then None else Some (a - b * of_int (js_trunc (a / b))))"

definition colorIdx :: "string list \<Rightarrow> 'a NoteEvent_scheme \<Rightarrow> real option" where
  "colorIdx palette n = js_rem (discriminator n) (real (length palette))"

definition paletteAt :: "string list \<Rightarrow> real option \<Rightarrow> string option" where
  "paletteAt palette idx =
     (case idx of
        None \<Rightarrow> None
      | Some v \<Rightarrow>
          if of_int \<lfloor>v\<rfloor> = v \<and> 0 \<le> v \<and> v < real (length palette)
          then Some (palette ! nat \<lfloor>v\<rfloor>)
          else None)"

definition isActive :: "real \<Rightarrow> 'a NoteEvent_scheme \<Rightarrow> bool" where
  "isActive currentTime n =
     (currentTime \<ge> startTime n \<and> currentTime \<le> startTime n + duration n)"

text \<open>
  The body of \<open>notes.forEach\<close>: the calls made for one note. \<open>hasRoundRect\<close> says
  whether the context has the method \<open>roundRect\<close>; \<open>darkBg\<close> is \<open>isDarkBg\<close>.
\<close>

definition drawNote ::
  "bool \<Rightarrow> bool \<Rightarrow> string list \<Rightarrow> real \<Rightarrow> real \<Rightarrow> real \<Rightarrow> 'a NoteEvent_scheme \<Rightarrow> canvas_call list" where
  "drawNote hasRoundRect darkBg palette currentTime width height n =
     (let x = note_x currentTime width n;
          w = note_w width n;
          y = note_y height n
      in if onScreen currentTime width n
         then
           (let fillStyle = paletteAt palette (colorIdx palette n)
            in if isActive currentTime n
               then [SetShadowBlur 15, SetShadowColor fillStyle,
                     SetFillStyle (if darkBg then Some ''#ffffff'' else fillStyle)]
                    @ (if hasRoundRect
                       then [BeginPath,
                             RoundRect (x - 1) (y - 1) (w + 2) (NOTE_HEIGHT height * 0.85 + 2) 4,
                             Fill]
                       else [FillRect (x - 1) (y - 1) (w + 2) (NOTE_HEIGHT height * 0.85 + 2)])
                    @ [SetShadowBlur 0]
               else [SetFillStyle fillStyle, SetGlobalAlpha 0.9, SetShadowBlur 4,
                     SetShadowColor
                       (Some (if darkBg then ''rgba(0,0,0,0.5)'' else ''rgba(0,0,0,0.1)'')),
                     SetShadowOffsetX 2, SetShadowOffsetY 2]
                    @ (if hasRoundRect
                       then [BeginPath, RoundRect x y w (NOTE_HEIGHT height * 0.85) 3, Fill]
                       else [FillRect x y w (NOTE_HEIGHT height * 0.85)])
                    @ [SetGlobalAlpha 1.0, SetShadowBlur 0, SetShadowOffsetX 0,
                       SetShadowOffsetY 0])
         else [])"

definition drawPianoRoll ::
  "canvas_call list \<Rightarrow> bool \<Rightarrow> 'a NoteEvent_scheme list \<Rightarrow> real \<Rightarrow> string list \<Rightarrow> string \<Rightarrow>
     real \<Rightarrow> real \<Rightarrow> canvas_call list" where
  "drawPianoRoll ctx hasRoundRect notes currentTime palette backgroundColor width height =
     ctx
     @ [Save, SetFillStyle (Some backgroundColor), FillRect 0 0 width height,
        BeginPath, MoveTo (PLAYHEAD_X width) 0, LineTo (PLAYHEAD_X width) height,
        SetLineWidth (max 2 (width * 0.002)),
        SetStrokeStyle
          (if isDarkBg backgroundColor then ''rgba(255,255,255,0.4)'' else ''rgba(0,0,0,0.3)''),
        Stroke]
     @ concat (map (drawNote hasRoundRect (isDarkBg backgroundColor) palette currentTime
                      width height) notes)
     @ [Restore]"

text \<open>
  Where each rectangle of a list of calls starts on the horizontal axis: the first
  argument of \<open>roundRect\<close> and \<open>fillRect\<close>.
\<close>

fun rectLeft :: "canvas_call list \<Rightarrow> real list" where
  "rectLeft [] = []"
| "rectLeft (RoundRect x y w h radius # cs) = x # rectLeft cs"
| "rectLeft (FillRect x y w h # cs) = x # rectLeft cs"
| "rectLeft (c # cs) = rectLeft cs"

subsection \<open>drawOscilloscope\<close>

text \<open>
  The analyser node, as far as the renderer reads it: \<open>frequencyBinCount\<close>, and the
  samples that \<open>getByteTimeDomainData\<close> copies into the zero-filled \<open>Uint8Array\<close> of
  that length.
\<close>

record AnalyserNode =
  frequencyBinCount :: nat
  timeDomainData :: "nat list"

definition dataArray :: "AnalyserNode \<Rightarrow> nat list" where
  "dataArray analyser =
     (let bufferLength = frequencyBinCount analyser
      in take bufferLength (timeDomainData analyser)
         @ replicate (bufferLength - length (timeDomainData analyser)) 0)"

text \<open>The \<open>for\<close> loop over the samples, from index \<open>i\<close> with the running \<open>x\<close>.\<close>

fun tracePath :: "nat list \<Rightarrow> nat \<Rightarrow> real \<Rightarrow> real \<Rightarrow> real \<Rightarrow> canvas_call list" where
  "tracePath [] i x sliceWidth height = []"
| "tracePath (sample # rest) i x sliceWidth height =
     (let v = real sample / 128.0;
          y = v * height / 2
      in (if i = 0 then MoveTo x y else LineTo x y)
         # tracePath rest (i + 1) (x + sliceWidth) sliceWidth height)"

definition idleLine :: "string \<Rightarrow> real \<Rightarrow> real \<Rightarrow> canvas_call list" where
  "idleLine color width height =
     [SetStrokeStyle color, SetLineWidth 2, BeginPath, MoveTo 0 (height / 2),
      LineTo width (height / 2), Stroke, Restore]"

definition drawOscilloscope ::
  "canvas_call list \<Rightarrow> AnalyserNode option \<Rightarrow> bool \<Rightarrow> string \<Rightarrow> string \<Rightarrow> real \<Rightarrow> real \<Rightarrow>
     canvas_call list" where
  "drawOscilloscope ctx analyser isPlaying color backgroundColor width height =
     ctx
     @ [Save, SetFillStyle (Some backgroundColor), FillRect 0 0 width height]
     @ (case analyser of
          None \<Rightarrow> idleLine color width height
        | Some a \<Rightarrow>
            if \<not> isPlaying then idleLine color width height
            else (let bufferLength = frequencyBinCount a;
                      sliceWidth = width * 1.0 / real bufferLength
                  in [GetByteTimeDomainData, SetStrokeStyle color, SetLineWidth 2, BeginPath]
                     @ tracePath (dataArray a) 0 0 sliceWidth height
                     @ [LineTo width (height / 2), Stroke, Restore]))"

subsection \<open>The specification's vocabulary\<close>

text \<open>
  The canonical form of a colour: \<open>#\<close> and six digits of \<open>0-9\<close>, \<open>a-f\<close>, as \<open>rgbToHex\<close>
  writes it.
\<close>

definition isLowerHexDigit :: "char \<Rightarrow> bool" where
  "isLowerHexDigit c = (c \<in> set ''0123456789abcdef'')"

definition canonicalHex :: "string \<Rightarrow> bool" where
  "canonicalHex hex =
     (case hex of
        [] \<Rightarrow> False
      | c # body \<Rightarrow> c = CHR ''#'' \<and> length body = 6 \<and> list_all isLowerHexDigit body)"

text \<open>
  A strict 6-digit hex colour in the specification's words: an optional \<open>#\<close>, then six
  hexadecimal digits of either case.
\<close>

definition strictHex6 :: "string \<Rightarrow> bool" where
  "strictHex6 hex =
     (let isHex = (\<lambda>c. c \<in> set ''0123456789abcdefABCDEF'')
      in (length hex = 6 \<and> list_all isHex hex) \<or>
         (length hex = 7 \<and> hd hex = CHR ''#'' \<and> list_all isHex (tl hex)))"


definition clamp :: "int \<Rightarrow> nat" where
  "clamp v = nat (min 255 (max 0 v))"

subsection \<open>The state of the dominant-colour scan\<close>

text \<open>
  What the first loop has established once it has tallied the first \<open>m\<close> pixels: the
  counts are the occurrences so far, \<open>maxCount\<close> bounds them, and \<open>dominantColor\<close> is
  the pixel at which some count first became \<open>maxCount\<close>.
\<close>

definition scanned :: "nat list \<Rightarrow> nat \<Rightarrow> scan_state \<Rightarrow> bool" where
  "scanned data m st =
     ((\<forall>key. colorCounts st key =
              (if occurrences data key m = 0 then None else Some (occurrences data key m)))
      \<and> (\<forall>key. occurrences data key m \<le> maxCount st)
      \<and> (if m = 0 then maxCount st = 0 \<and> dominantColor st = (0, 0, 0)
         else (\<exists>k. k < m \<and> dominantColor st = pixelAt data k
                 \<and> occurrences data (bucket (pixelAt data k)) (Suc k) = maxCount st
                 \<and> (\<forall>key. occurrences data key k < maxCount st))))"

section \<open>Properties of the colour helpers\<close>

subsection \<open>Digits and channels\<close>

lemma hexTable_eval:
  "hexTable =
     [(CHR ''0'', 0), (CHR ''1'', 1), (CHR ''2'', 2), (CHR ''3'', 3), (CHR ''4'', 4),
      (CHR ''5'', 5), (CHR ''6'', 6), (CHR ''7'', 7), (CHR ''8'', 8), (CHR ''9'', 9),
      (CHR ''a'', 10), (CHR ''b'', 11), (CHR ''c'', 12), (CHR ''d'', 13), (CHR ''e'', 14),
      (CHR ''f'', 15), (CHR ''A'', 10), (CHR ''B'', 11), (CHR ''C'', 12), (CHR ''D'', 13),
      (CHR ''E'', 14), (CHR ''F'', 15)]"
  by code_simp

lemma hexDigit_all:
  "\<forall>d \<in> set [0 ..< 16].
     isHexDigit (hexDigit d) \<and> digitValue (hexDigit d) = d \<and> isLowerHexDigit (hexDigit d)
     \<and> hexDigit d \<noteq> CHR ''#''"
  by code_simp

lemma hexDigit_props:
  "d < 16 \<Longrightarrow>
   isHexDigit (hexDigit d) \<and> digitValue (hexDigit d) = d \<and> isLowerHexDigit (hexDigit d)
   \<and> hexDigit d \<noteq> CHR ''#''"
  using hexDigit_all by simp

lemma lowerHex_all: "\<forall>c \<in> set ''0123456789abcdef''. hexDigit (digitValue c) = c \<and> isHexDigit c"
  by code_simp

lemma lowerHex_props: "isLowerHexDigit c \<Longrightarrow> hexDigit (digitValue c) = c \<and> isHexDigit c"
  using lowerHex_all unfolding isLowerHexDigit_def by blast

lemma hexTable_values: "\<forall>p \<in> set hexTable. snd p < 16"
  by code_simp

lemma digitValue_lt16: "digitValue c < 16"
proof (cases "map_of hexTable c")
  case None
  then show ?thesis by (simp add: digitValue_def)
next
  case (Some v)
  then have "(c, v) \<in> set hexTable" by (rule map_of_SomeD)
  with hexTable_values have "v < 16" by fastforce
  with Some show ?thesis by (simp add: digitValue_def)
qed

lemma isHexDigit_not_hash: "isHexDigit c \<Longrightarrow> c \<noteq> CHR ''#''"
proof
  assume "isHexDigit c" and "c = CHR ''#''"
  then have "isHexDigit (CHR ''#'')" by simp
  moreover have "\<not> isHexDigit (CHR ''#'')" by code_simp
  ultimately show False by simp
qed

lemma padStart_toString16:
  "n < 256 \<Longrightarrow> padStart 2 (CHR ''0'') (toString16 n) = [hexDigit (n div 16), hexDigit (n mod 16)]"
proof (cases "n < 16")
  case True
  then show ?thesis by (simp add: padStart_def hexDigit_def toString16.simps [of n])
next
  case False
  assume "n < 256"
  then have "n div 16 < 16" by simp
  with False show ?thesis
    by (simp add: padStart_def toString16.simps [of n] toString16.simps [of "n div 16"])
qed

lemma clampRound_lt256: "clampRound x < 256"
  by (simp add: clampRound_def)

lemma channelHex_eq:
  "channelHex x = [hexDigit (clampRound x div 16), hexDigit (clampRound x mod 16)]"
  by (simp add: channelHex_def padStart_toString16 clampRound_lt256)

lemma parseInt16_pair: "parseInt16 [c, d] = 16 * digitValue c + digitValue d"
  by (simp add: parseInt16_def)

lemma parseInt16_hexDigits:
  "n < 256 \<Longrightarrow> parseInt16 [hexDigit (n div 16), hexDigit (n mod 16)] = n"
proof -
  assume "n < 256"
  then have "n div 16 < 16" and "n mod 16 < 16" by simp_all
  then show ?thesis by (simp add: parseInt16_pair hexDigit_props)
qed

lemma rgbToHex_eq:
  "rgbToHex x y z = CHR ''#'' # channelHex x @ channelHex y @ channelHex z"
  by (simp add: rgbToHex_def)

lemma hexToRgb_rgbToHex:
  "hexToRgb (rgbToHex x y z) = Some (clampRound x, clampRound y, clampRound z)"
proof -
  have d: "clampRound v div 16 < 16" "clampRound v mod 16 < 16" for v
    using clampRound_lt256 [of v] by simp_all
  show ?thesis
    by (simp add: rgbToHex_eq hexToRgb_def stripHash_def channelHex_eq d hexDigit_props
        parseInt16_pair)
qed

lemma canonicalHex_rgbToHex: "canonicalHex (rgbToHex x y z)"
proof -
  have d: "clampRound v div 16 < 16" "clampRound v mod 16 < 16" for v
    using clampRound_lt256 [of v] by simp_all
  show ?thesis
    by (simp add: rgbToHex_eq canonicalHex_def channelHex_eq d hexDigit_props)
qed

lemma length6: "length xs = 6 \<Longrightarrow> \<exists>a b c d e f. xs = [a, b, c, d, e, f]"
  by (auto simp: numeral_eq_Suc length_Suc_conv)

lemma hexToRgb_lt256:
  assumes "hexToRgb hex = Some (r, g, b)"
  shows "r < 256 \<and> g < 256 \<and> b < 256"
proof -
  have p: "16 * digitValue c + digitValue d < 256" for c d
    using digitValue_lt16 [of c] digitValue_lt16 [of d] by simp
  from assms have len: "length (stripHash hex) = 6"
    by (simp add: hexToRgb_def Let_def split: if_splits)
  then obtain c1 c2 c3 c4 c5 c6 where "stripHash hex = [c1, c2, c3, c4, c5, c6]"
    using length6 by blast
  with assms show ?thesis
    by (auto simp: hexToRgb_def Let_def parseInt16_pair p split: if_splits)
qed

lemma clampRound_of_nat: "n < 256 \<Longrightarrow> clampRound (real n) = n"
  by (simp add: clampRound_def Math_round_def)

lemma clampRound_of_int: "clampRound (of_int i) = nat (min 255 (max 0 i))"
proof -
  have "\<lfloor>(of_int i :: real) + 1 / 2\<rfloor> = i" by linarith
  then show ?thesis by (simp add: clampRound_def Math_round_def)
qed

lemma canonical_roundtrip:
  assumes "canonicalHex hex" and "hexToRgb hex = Some (r, g, b)"
  shows "rgbToHex (real r) (real g) (real b) = hex"
proof -
  from assms(1) obtain body where hex: "hex = CHR ''#'' # body" and len: "length body = 6"
    and low: "list_all isLowerHexDigit body"
    by (auto simp: canonicalHex_def split: list.splits)
  from len obtain c1 c2 c3 c4 c5 c6 where body: "body = [c1, c2, c3, c4, c5, c6]"
    using length6 by blast
  have lt: "r < 256" "g < 256" "b < 256" using hexToRgb_lt256 [OF assms(2)] by simp_all
  have q: "(16 * digitValue c + digitValue d) div 16 = digitValue c"
          "(16 * digitValue c + digitValue d) mod 16 = digitValue d" for c d
    using digitValue_lt16 [of d] by simp_all
  have ch: "v = 16 * digitValue c + digitValue d \<Longrightarrow> v < 256 \<Longrightarrow>
      isLowerHexDigit c \<Longrightarrow> isLowerHexDigit d \<Longrightarrow> channelHex (real v) = [c, d]" for v c d
    by (simp only: channelHex_eq clampRound_of_nat q lowerHex_props)
  from assms(2) hex body have
    "r = 16 * digitValue c1 + digitValue c2"
    "g = 16 * digitValue c3 + digitValue c4"
    "b = 16 * digitValue c5 + digitValue c6"
    by (auto simp: hexToRgb_def Let_def stripHash_def parseInt16_pair split: if_splits)
  moreover from low body have "isLowerHexDigit c1" "isLowerHexDigit c2" "isLowerHexDigit c3"
    "isLowerHexDigit c4" "isLowerHexDigit c5" "isLowerHexDigit c6"
    by simp_all
  ultimately have "channelHex (real r) = [c1, c2]" "channelHex (real g) = [c3, c4]"
    "channelHex (real b) = [c5, c6]"
    using lt by (blast intro: ch)+
  with hex body show ?thesis
    by (simp only: rgbToHex_eq append.simps)
qed

text \<open>Rules that evaluate the two conversions on a literal colour.\<close>

lemmas hex_eval =
  hexToRgb_def stripHash_def isHexDigit_def digitValue_def parseInt16_def hexTable_eval Let_def

lemmas rgb_eval = rgbToHex_eq channelHex_eq clampRound_def Math_round_def hexDigit_def

subsection \<open>Adjusting a colour\<close>


lemma adjustColor_Some:
  "hexToRgb hex = Some (r, g, b) \<Longrightarrow>
   adjustColor hex brightness contrast =
     rgbToHex (adjust ((brightness - 100) * 1.5) (contrast / 100) r)
              (adjust ((brightness - 100) * 1.5) (contrast / 100) g)
              (adjust ((brightness - 100) * 1.5) (contrast / 100) b)"
  by (simp add: adjustColor_def Let_def)





text \<open>
  Claim C4, as stated: \<open>adjustColor hex 100 100\<close> is the input string, for every valid
  hex colour. It fails where the input is not written as \<open>rgbToHex\<close> writes colours: the
  valid colour \<open>#FFFFFF\<close> comes back as \<open>#ffffff\<close>.
\<close>

theorem adjustColor_identity_counterexample:
  "hexToRgb ''#FFFFFF'' = Some (255, 255, 255)
   \<and> adjustColor ''#FFFFFF'' 100 100 = ''#ffffff''
   \<and> adjustColor ''#FFFFFF'' 100 100 \<noteq> ''#FFFFFF''"
proof -
  have h: "hexToRgb ''#FFFFFF'' = Some (255, 255, 255)" by (simp add: hex_eval)
  have a: "adjustColor ''#FFFFFF'' 100 100 = ''#ffffff''"
    by (simp add: adjustColor_Some [OF h] adjust_def rgb_eval)
  then have "adjustColor ''#FFFFFF'' 100 100 \<noteq> ''#FFFFFF''" by simp
  with h a show ?thesis by (intro conjI)
qed

lemma adjust_identity: "adjust ((100 - 100) * 1.5) (100 / 100) v = real v"
  by (simp add: adjust_def)

text \<open>
  Claim C4, amended. For every valid hex colour, \<open>adjustColor hex 100 100\<close> is the
  canonical encoding (\<open>#\<close> and six lower-case digits) of the same colour; it is the input
  string exactly when the input is already in canonical form.
\<close>

theorem adjustColor_default_canonical:
  assumes "hexToRgb hex = Some (r, g, b)"
  shows "adjustColor hex 100 100 = rgbToHex (real r) (real g) (real b)
         \<and> hexToRgb (adjustColor hex 100 100) = hexToRgb hex
         \<and> canonicalHex (adjustColor hex 100 100)
         \<and> (adjustColor hex 100 100 = hex) = canonicalHex hex"
proof -
  have eq: "adjustColor hex 100 100 = rgbToHex (real r) (real g) (real b)"
    by (simp only: adjustColor_Some [OF assms] adjust_identity)
  have lt: "r < 256" "g < 256" "b < 256" using hexToRgb_lt256 [OF assms] by simp_all
  have same: "hexToRgb (adjustColor hex 100 100) = hexToRgb hex"
    by (simp only: eq hexToRgb_rgbToHex clampRound_of_nat lt assms)
  have can: "canonicalHex (adjustColor hex 100 100)"
    by (simp only: eq canonicalHex_rgbToHex)
  have "(adjustColor hex 100 100 = hex) = canonicalHex hex"
  proof
    assume "adjustColor hex 100 100 = hex"
    with can show "canonicalHex hex" by simp
  next
    assume "canonicalHex hex"
    then show "adjustColor hex 100 100 = hex"
      using canonical_roundtrip [OF _ assms] eq by simp
  qed
  with eq same can show ?thesis by simp
qed

theorem adjustColor_default_canonical_witness:
  "hexToRgb ''#1a2b3c'' = Some (26, 43, 60)
   \<and> canonicalHex ''#1a2b3c''
   \<and> adjustColor ''#1a2b3c'' 100 100 = ''#1a2b3c''"
proof -
  have h: "hexToRgb ''#1a2b3c'' = Some (26, 43, 60)" by (simp add: hex_eval)
  have c: "canonicalHex ''#1a2b3c''" by (simp add: canonicalHex_def isLowerHexDigit_def)
  from adjustColor_default_canonical [OF h]
  have "(adjustColor ''#1a2b3c'' 100 100 = ''#1a2b3c'') = canonicalHex ''#1a2b3c''"
    by (elim conjE)
  with h c show ?thesis by (simp only: simp_thms)
qed

text \<open>
  Claim C5. For all integers \<open>r\<close>, \<open>g\<close>, \<open>b\<close>, also outside [0, 255],
  \<open>hexToRgb (rgbToHex r g b)\<close> succeeds and gives each channel clamped to [0, 255].
\<close>

theorem hexToRgb_rgbToHex_clamp:
  "hexToRgb (rgbToHex (of_int r) (of_int g) (of_int b)) = Some (clamp r, clamp g, clamp b)"
  by (simp only: hexToRgb_rgbToHex clampRound_of_int clamp_def)

theorem hexToRgb_rgbToHex_clamp_witness:
  "hexToRgb (rgbToHex (of_int 300) (of_int (- 7)) (of_int 18)) = Some (255, 0, 18)"
proof -
  have "clamp 300 = 255" "clamp (- 7) = 0" "clamp 18 = 18" by (simp_all add: clamp_def)
  with hexToRgb_rgbToHex_clamp [of 300 "- 7" 18] show ?thesis by simp
qed

subsection \<open>Malformed colours\<close>

lemma hexTable_keys: "map fst hexTable = ''0123456789abcdefABCDEF''"
  by code_simp

lemma isHexDigit_iff: "isHexDigit c = (c \<in> set ''0123456789abcdefABCDEF'')"
proof -
  have "isHexDigit c = (c \<in> fst ` set hexTable)"
    by (simp add: isHexDigit_def map_of_eq_None_iff)
  also have "fst ` set hexTable = set (map fst hexTable)" by simp
  finally show ?thesis by (simp only: hexTable_keys)
qed

lemma hexToRgb_None_iff: "(hexToRgb hex = None) = (\<not> strictHex6 hex)"
proof (cases hex)
  case Nil
  then show ?thesis by (simp add: hexToRgb_def stripHash_def strictHex6_def)
next
  case (Cons c rest)
  have nh: "\<not> isHexDigit (CHR ''#'')" by code_simp
  have "isHexDigit = (\<lambda>c. c \<in> set ''0123456789abcdefABCDEF'')"
    by (rule ext) (rule isHexDigit_iff)
  then have l: "list_all (\<lambda>c. c \<in> set ''0123456789abcdefABCDEF'') xs
      = list_all isHexDigit xs" for xs
    by (simp only:)
  show ?thesis
  proof (cases "c = CHR ''#''")
    case True
    with Cons nh show ?thesis
      by (simp only: hexToRgb_def stripHash_def strictHex6_def Let_def l) auto
  next
    case False
    with Cons show ?thesis
      by (simp only: hexToRgb_def stripHash_def strictHex6_def Let_def l) auto
  qed
qed

text \<open>
  Claim C10. For every colour string that is not a strict 6-digit hex colour,
  \<open>getHexLuminance\<close> is 0, so the background counts as dark (\<open>isDarkBg\<close>, the test
  \<open>bgLum < 128\<close> of the renderer and of the theme extraction), and the piano roll draws
  the playhead in the style for dark backgrounds.
\<close>

theorem malformed_color_is_dark:
  assumes "\<not> strictHex6 backgroundColor"
  shows "hexToRgb backgroundColor = None
         \<and> getHexLuminance backgroundColor = 0
         \<and> isDarkBg backgroundColor
         \<and> SetStrokeStyle ''rgba(255,255,255,0.4)''
             \<in> set (drawPianoRoll ctx hasRoundRect notes currentTime palette backgroundColor
                       width height)"
proof -
  from assms have n: "hexToRgb backgroundColor = None" by (simp add: hexToRgb_None_iff)
  then have l: "getHexLuminance backgroundColor = 0" by (simp add: getHexLuminance_def)
  then have d: "isDarkBg backgroundColor" by (simp add: isDarkBg_def)
  then have "SetStrokeStyle ''rgba(255,255,255,0.4)''
      \<in> set (drawPianoRoll ctx hasRoundRect notes currentTime palette backgroundColor width height)"
    by (simp add: drawPianoRoll_def)
  with n l d show ?thesis by simp
qed

theorem malformed_color_is_dark_witness:
  "\<not> strictHex6 ''#12345g'' \<and> getHexLuminance ''#12345g'' = 0 \<and> isDarkBg ''#12345g''"
proof -
  have h: "\<not> strictHex6 ''#12345g''" by (simp add: strictHex6_def)
  note t = malformed_color_is_dark [OF h, of "[]" True "[] :: NoteEvent list" 0 "[]" 0 0]
  from t have "getHexLuminance ''#12345g'' = 0" by (elim conjE)
  moreover from t have "isDarkBg ''#12345g''" by (elim conjE)
  ultimately show ?thesis using h by (intro conjI)
qed

section \<open>Properties of the piano roll\<close>

subsection \<open>The colour of a note\<close>




subsection \<open>Active notes\<close>


lemma onScreen_at_start:
  assumes "startTime n = currentTime" and "0 \<le> width"
  shows "onScreen currentTime width n"
proof -
  have x: "note_x currentTime width n = width * 0.25"
    using assms(1) by (simp add: note_x_def relativeTime_def PLAYHEAD_X_def)
  have w: "3 \<le> note_w width n" by (simp add: note_w_def)
  from x w assms(2) show ?thesis by (simp add: onScreen_def)
qed



subsection \<open>The horizontal position of a note\<close>

lemma rectLeft_drawNote:
  "rectLeft (drawNote hasRoundRect darkBg palette currentTime width height n) =
     (if onScreen currentTime width n
      then [if isActive currentTime n then note_x currentTime width n - 1
            else note_x currentTime width n]
      else [])"
  by (simp add: drawNote_def Let_def)

text \<open>
  Claim C7, as stated: a note whose relative time is 0 renders exactly at
  \<open>x = width * 0.25\<close>. Such a note (of duration 1, on a canvas 1000 wide) is active, and
  the rectangle drawn for it starts one pixel to the left, at 249.
\<close>

theorem note_position_counterexample:
  "relativeTime 2 \<lparr>note = 60, velocity = 100, startTime = 2, duration = 1,
                    track = Some 0, channel = Some 0\<rparr> = 0
   \<and> drawNote True False [''#1a1a1a'', ''#8c8c8c''] 2 1000 880
        \<lparr>note = 60, velocity = 100, startTime = 2, duration = 1,
         track = Some 0, channel = Some 0\<rparr>
      = [SetShadowBlur 15, SetShadowColor (Some ''#1a1a1a''), SetFillStyle (Some ''#1a1a1a''),
         BeginPath, RoundRect 249 479 102 (21 / 2) 4, Fill, SetShadowBlur 0]
   \<and> (249 :: real) \<noteq> 1000 * 0.25"
  by (simp add: relativeTime_def drawNote_def Let_def onScreen_def note_x_def note_w_def note_y_def
      PLAYHEAD_X_def PX_PER_SEC_def TIME_WINDOW_def NOTE_HEIGHT_def TOTAL_KEYS_def MAX_NOTE_def
      MIN_NOTE_def isActive_def colorIdx_def discriminator_def orZero_def js_rem_def
      js_trunc_def paletteAt_def)

text \<open>
  Claim C7, amended. The position computed for every note is
  \<open>x = playheadX + (startTime - currentTime) * (width / 10)\<close> with
  \<open>playheadX = width * 0.25\<close>, linear in \<open>startTime - currentTime\<close> and equal to
  \<open>width * 0.25\<close> at relative time 0. The rectangle of a note on screen starts at \<open>x\<close>
  when the note is inactive and at \<open>x - 1\<close> when it is active (the enlarged box); a note
  at relative time 0 whose duration is not negative is active, so its rectangle starts at
  \<open>width * 0.25 - 1\<close>.
\<close>

theorem note_position:
  "note_x currentTime width n = width * 0.25 + (startTime n - currentTime) * (width / 10)
   \<and> (relativeTime currentTime n = 0 \<longrightarrow> note_x currentTime width n = width * 0.25)
   \<and> rectLeft (drawNote hasRoundRect darkBg palette currentTime width height n) =
       (if onScreen currentTime width n
        then [if isActive currentTime n then note_x currentTime width n - 1
              else note_x currentTime width n]
        else [])
   \<and> (relativeTime currentTime n = 0 \<and> 0 \<le> duration n \<and> 0 \<le> width \<longrightarrow>
        rectLeft (drawNote hasRoundRect darkBg palette currentTime width height n)
          = [width * 0.25 - 1])"
proof -
  have a: "note_x currentTime width n = width * 0.25 + (startTime n - currentTime) * (width / 10)"
    by (simp add: note_x_def relativeTime_def PLAYHEAD_X_def PX_PER_SEC_def TIME_WINDOW_def)
  have b: "relativeTime currentTime n = 0 \<longrightarrow> note_x currentTime width n = width * 0.25"
    by (simp add: note_x_def PLAYHEAD_X_def)
  have c: "relativeTime currentTime n = 0 \<and> 0 \<le> duration n \<and> 0 \<le> width \<longrightarrow>
        rectLeft (drawNote hasRoundRect darkBg palette currentTime width height n)
          = [width * 0.25 - 1]"
  proof (intro impI, elim conjE)
    assume r: "relativeTime currentTime n = 0" and d: "0 \<le> duration n" and w: "0 \<le> width"
    from r have s: "startTime n = currentTime" by (simp add: relativeTime_def)
    with d have "isActive currentTime n" by (simp add: isActive_def)
    moreover from s w have "onScreen currentTime width n" by (rule onScreen_at_start)
    moreover from r b have "note_x currentTime width n = width * 0.25" by simp
    ultimately show "rectLeft (drawNote hasRoundRect darkBg palette currentTime width height n)
          = [width * 0.25 - 1]"
      by (simp only: rectLeft_drawNote if_True)
  qed
  from a b c rectLeft_drawNote [of hasRoundRect darkBg palette currentTime width height n]
  show ?thesis by (intro conjI)
qed

theorem note_position_witness:
  "relativeTime 2 \<lparr>note = 60, velocity = 100, startTime = 2, duration = 1,
                    track = Some 0, channel = Some 0\<rparr> = 0
   \<and> rectLeft (drawNote True False [''#1a1a1a'', ''#8c8c8c''] 2 1000 880
        \<lparr>note = 60, velocity = 100, startTime = 2, duration = 1,
         track = Some 0, channel = Some 0\<rparr>) = [249]"
proof -
  let ?n = "\<lparr>note = 60, velocity = 100, startTime = 2, duration = 1,
               track = Some 0, channel = Some 0\<rparr>"
  let ?p = "[''#1a1a1a'', ''#8c8c8c'']"
  have r: "relativeTime 2 ?n = 0" by (simp add: relativeTime_def)
  have "relativeTime 2 ?n = 0 \<and> 0 \<le> duration ?n \<and> (0::real) \<le> 1000 \<longrightarrow>
        rectLeft (drawNote True False ?p 2 1000 880 ?n) = [1000 * 0.25 - 1]"
    using note_position [of 2 1000 ?n True False ?p 880] by (elim conjE)
  with r have "rectLeft (drawNote True False ?p 2 1000 880 ?n) = [249]" by simp
  with r show ?thesis by (intro conjI)
qed

section \<open>Properties of the oscilloscope\<close>

text \<open>
  Claim C8. Called with no analyser or with \<open>isPlaying\<close> false, the oscilloscope
  renderer fills the background and then draws exactly the flat line from
  \<open>(0, height / 2)\<close> to \<open>(width, height / 2)\<close>: these are all the calls it adds,
  whatever was drawn on the context before, and it does not read the samples.
\<close>

theorem oscilloscope_idle:
  assumes "analyser = None \<or> \<not> isPlaying"
  shows "drawOscilloscope ctx analyser isPlaying color backgroundColor width height
           = ctx @ [Save, SetFillStyle (Some backgroundColor), FillRect 0 0 width height,
                    SetStrokeStyle color, SetLineWidth 2, BeginPath,
                    MoveTo 0 (height / 2), LineTo width (height / 2), Stroke, Restore]
         \<and> GetByteTimeDomainData
             \<notin> set (drop (length ctx)
                      (drawOscilloscope ctx analyser isPlaying color backgroundColor width height))"
proof -
  from assms have "drawOscilloscope ctx analyser isPlaying color backgroundColor width height
           = ctx @ [Save, SetFillStyle (Some backgroundColor), FillRect 0 0 width height,
                    SetStrokeStyle color, SetLineWidth 2, BeginPath,
                    MoveTo 0 (height / 2), LineTo width (height / 2), Stroke, Restore]"
    by (auto simp: drawOscilloscope_def idleLine_def split: option.splits)
  then show ?thesis by simp
qed

theorem oscilloscope_idle_witness:
  "drawOscilloscope [Save, BeginPath, MoveTo 0 40, LineTo 50 70, Stroke, Restore]
      (Some \<lparr>frequencyBinCount = 2, timeDomainData = [128, 200]\<rparr>) False ''#1a1a1a'' ''#fffbe9''
      100 80
    = [Save, BeginPath, MoveTo 0 40, LineTo 50 70, Stroke, Restore,
       Save, SetFillStyle (Some ''#fffbe9''), FillRect 0 0 100 80,
       SetStrokeStyle ''#1a1a1a'', SetLineWidth 2, BeginPath,
       MoveTo 0 40, LineTo 100 40, Stroke, Restore]
   \<and> drawOscilloscope [] None True ''#1a1a1a'' ''#fffbe9'' 100 80
    = [Save, SetFillStyle (Some ''#fffbe9''), FillRect 0 0 100 80,
       SetStrokeStyle ''#1a1a1a'', SetLineWidth 2, BeginPath,
       MoveTo 0 40, LineTo 100 40, Stroke, Restore]"
proof -
  let ?a = "Some \<lparr>frequencyBinCount = 2, timeDomainData = [128, 200]\<rparr>"
  have h1: "?a = None \<or> \<not> False" by simp
  have h2: "(None :: AnalyserNode option) = None \<or> \<not> True" by simp
  from oscilloscope_idle [OF h1, of "[Save, BeginPath, MoveTo 0 40, LineTo 50 70, Stroke, Restore]"
      "''#1a1a1a''" "''#fffbe9''" 100 80]
  have 1: "drawOscilloscope [Save, BeginPath, MoveTo 0 40, LineTo 50 70, Stroke, Restore]
      ?a False ''#1a1a1a'' ''#fffbe9'' 100 80
    = [Save, BeginPath, MoveTo 0 40, LineTo 50 70, Stroke, Restore,
       Save, SetFillStyle (Some ''#fffbe9''), FillRect 0 0 100 80,
       SetStrokeStyle ''#1a1a1a'', SetLineWidth 2, BeginPath,
       MoveTo 0 40, LineTo 100 40, Stroke, Restore]" by simp
  from oscilloscope_idle [OF h2, of "[]" "''#1a1a1a''" "''#fffbe9''" 100 80]
  have 2: "drawOscilloscope [] None True ''#1a1a1a'' ''#fffbe9'' 100 80
    = [Save, SetFillStyle (Some ''#fffbe9''), FillRect 0 0 100 80,
       SetStrokeStyle ''#1a1a1a'', SetLineWidth 2, BeginPath,
       MoveTo 0 40, LineTo 100 40, Stroke, Restore]" by simp
  from 1 2 show ?thesis by (intro conjI)
qed

section \<open>Properties of the theme extraction\<close>

subsection \<open>The dominant colour\<close>

lemma occurrences_0: "occurrences data key 0 = 0"
  by (simp add: occurrences_def)

lemma occurrences_Suc:
  "occurrences data key (Suc m) =
     occurrences data key m + (if bucket (pixelAt data m) = key then 1 else 0)"
  by (simp add: occurrences_def)

lemma occurrences_mono: "m \<le> m' \<Longrightarrow> occurrences data key m \<le> occurrences data key m'"
proof (induction m' arbitrary: m)
  case 0
  then show ?case by simp
next
  case (Suc m')
  show ?case
  proof (cases "m = Suc m'")
    case True
    then show ?thesis by simp
  next
    case False
    with Suc.prems have "m \<le> m'" by simp
    then have "occurrences data key m \<le> occurrences data key m'" by (rule Suc.IH)
    then show ?thesis by (simp add: occurrences_Suc)
  qed
qed

lemma scanned_initial: "scanned data 0 initial_scan"
  by (simp add: scanned_def initial_scan_def occurrences_0)

lemma tally_key:
  "tally r0 g0 b0 st =
     (let key = bucket (r0, g0, b0);
          cnt = (case colorCounts st key of None \<Rightarrow> 0 | Some c \<Rightarrow> c) + 1
      in if cnt > maxCount st
         then \<lparr>colorCounts = (colorCounts st)(key \<mapsto> cnt), maxCount = cnt,
               dominantColor = (r0, g0, b0)\<rparr>
         else st\<lparr>colorCounts := (colorCounts st)(key \<mapsto> cnt)\<rparr>)"
  by (simp add: tally_def bucket_def Let_def)

lemma scanned_step:
  assumes inv: "scanned data m st"
    and px: "pixelAt data m = (r0, g0, b0)"
  shows "scanned data (Suc m) (tally r0 g0 b0 st)"
proof -
  let ?key = "bucket (r0, g0, b0)"
  let ?cnt = "Suc (occurrences data ?key m)"
  from inv have cc: "\<And>key. colorCounts st key =
      (if occurrences data key m = 0 then None else Some (occurrences data key m))"
    and le: "\<And>key. occurrences data key m \<le> maxCount st"
    and dom: "if m = 0 then maxCount st = 0 \<and> dominantColor st = (0, 0, 0)
         else (\<exists>k. k < m \<and> dominantColor st = pixelAt data k
                 \<and> occurrences data (bucket (pixelAt data k)) (Suc k) = maxCount st
                 \<and> (\<forall>key. occurrences data key k < maxCount st))"
    unfolding scanned_def by blast+
  have cnt: "(case colorCounts st ?key of None \<Rightarrow> 0 | Some c \<Rightarrow> c) + 1 = ?cnt"
    by (simp add: cc)
  have occ: "occurrences data key (Suc m) = (if key = ?key then ?cnt else occurrences data key m)"
    for key
    by (auto simp: occurrences_Suc px)
  show ?thesis
  proof (cases "?cnt > maxCount st")
    case True
    then have t: "tally r0 g0 b0 st =
        \<lparr>colorCounts = (colorCounts st)(?key \<mapsto> ?cnt), maxCount = ?cnt,
         dominantColor = (r0, g0, b0)\<rparr>"
      by (simp only: tally_key Let_def cnt if_True)
    have 1: "\<forall>key. colorCounts (tally r0 g0 b0 st) key =
              (if occurrences data key (Suc m) = 0 then None
               else Some (occurrences data key (Suc m)))"
      by (simp add: t occ cc)
    have 2: "\<forall>key. occurrences data key (Suc m) \<le> maxCount (tally r0 g0 b0 st)"
    proof
      fix key
      from le [of key] True show "occurrences data key (Suc m) \<le> maxCount (tally r0 g0 b0 st)"
        by (simp add: t occ)
    qed
    have "\<forall>key. occurrences data key m < ?cnt"
    proof
      fix key
      from le [of key] True show "occurrences data key m < ?cnt" by simp
    qed
    then have 3: "\<exists>k. k < Suc m \<and> dominantColor (tally r0 g0 b0 st) = pixelAt data k
                 \<and> occurrences data (bucket (pixelAt data k)) (Suc k)
                     = maxCount (tally r0 g0 b0 st)
                 \<and> (\<forall>key. occurrences data key k < maxCount (tally r0 g0 b0 st))"
      by (intro exI [of _ m]) (simp add: t px occ)
    from 1 2 3 show ?thesis by (simp add: scanned_def)
  next
    case False
    then have t: "tally r0 g0 b0 st = st\<lparr>colorCounts := (colorCounts st)(?key \<mapsto> ?cnt)\<rparr>"
      by (simp only: tally_key Let_def cnt if_False)
    have 1: "\<forall>key. colorCounts (tally r0 g0 b0 st) key =
              (if occurrences data key (Suc m) = 0 then None
               else Some (occurrences data key (Suc m)))"
      by (simp add: t occ cc)
    have 2: "\<forall>key. occurrences data key (Suc m) \<le> maxCount (tally r0 g0 b0 st)"
    proof
      fix key
      from le [of key] False show "occurrences data key (Suc m) \<le> maxCount (tally r0 g0 b0 st)"
        by (simp add: t occ)
    qed
    from False have "0 < maxCount st" by simp
    with dom have "m \<noteq> 0" by (auto split: if_splits)
    with dom obtain k where k: "k < m" "dominantColor st = pixelAt data k"
      "occurrences data (bucket (pixelAt data k)) (Suc k) = maxCount st"
      "\<forall>key. occurrences data key k < maxCount st"
      by auto
    then have 3: "\<exists>k. k < Suc m \<and> dominantColor (tally r0 g0 b0 st) = pixelAt data k
                 \<and> occurrences data (bucket (pixelAt data k)) (Suc k)
                     = maxCount (tally r0 g0 b0 st)
                 \<and> (\<forall>key. occurrences data key k < maxCount (tally r0 g0 b0 st))"
      by (intro exI [of _ k]) (simp add: t)
    from 1 2 3 show ?thesis by (simp add: scanned_def)
  qed
qed

lemma dominantScan_scanned:
  "4 dvd length data \<Longrightarrow> 4 dvd i \<Longrightarrow> i \<le> length data \<Longrightarrow> scanned data (i div 4) st \<Longrightarrow>
   \<exists>st'. dominantScan data i st = Some st' \<and> scanned data (length data div 4) st'"
proof (induction data i st rule: dominantScan.induct)
  case (1 data i st)
  show ?case
  proof (cases "i < length data")
    case True
    with "1.prems"(1,2) have room: "i + 4 \<le> length data" by presburger
    then have r2: "i + 2 < length data" by simp
    from "1.prems"(2) have i4: "4 * (i div 4) = i" by simp
    have px: "pixelAt data (i div 4) = (data ! i, data ! (i + 1), data ! (i + 2))"
      by (simp add: pixelAt_def i4)
    from "1.prems"(2) have s: "(i + 4) div 4 = Suc (i div 4)" by simp
    have "scanned data ((i + 4) div 4) (tally (data ! i) (data ! (i + 1)) (data ! (i + 2)) st)"
      unfolding s using "1.prems"(4) px by (rule scanned_step)
    moreover from "1.prems"(2) have "4 dvd i + 4" by simp
    ultimately have "\<exists>st'. dominantScan data (i + 4)
          (tally (data ! i) (data ! (i + 1)) (data ! (i + 2)) st) = Some st'
        \<and> scanned data (length data div 4) st'"
      using "1.IH" [OF True r2 "1.prems"(1)] room by blast
    with True r2 show ?thesis by (simp add: dominantScan.simps [of data i])
  next
    case False
    then have r: "dominantScan data i st = Some st" by (simp add: dominantScan.simps [of data i])
    from False "1.prems"(3) have "i = length data" by simp
    with "1.prems"(4) have "scanned data (length data div 4) st" by simp
    with r show ?thesis by simp
  qed
qed

lemma occurrences_last:
  assumes "occurrences data key (Suc k) = occurrences data key n" and "k < j" and "j < n"
  shows "bucket (pixelAt data j) \<noteq> key"
proof
  assume "bucket (pixelAt data j) = key"
  then have "occurrences data key (Suc j) = Suc (occurrences data key j)"
    by (simp add: occurrences_Suc)
  moreover from assms(2) have "occurrences data key (Suc k) \<le> occurrences data key j"
    by (intro occurrences_mono) simp
  moreover from assms(3) have "occurrences data key (Suc j) \<le> occurrences data key n"
    by (intro occurrences_mono) simp
  ultimately show False using assms(1) by simp
qed

lemma quantize_eval:
  "quantize 0 = 0" "quantize (Suc 0) = 0" "quantize 8 = 10" "quantize 10 = 10"
  "quantize 200 = 200"
  by (simp_all add: quantize_def Math_round_def)

text \<open>
  Claim C1, as stated: the raw dominant colour is the first-seen pixel of the most
  frequent bucket, a tie going to the bucket met first (\<open>spec_dominantColor\<close>). On two
  pixels of one bucket, (0, 0, 0) then (1, 1, 1), the scan returns the second; on the
  pixels A, B, B, A of two buckets it returns B, the bucket met second.
\<close>

theorem dominant_color_counterexample:
  "map_option dominantColor (dominantScan [0, 0, 0, 255, 1, 1, 1, 255] 0 initial_scan)
     = Some (1, 1, 1)
   \<and> spec_dominantColor [0, 0, 0, 255, 1, 1, 1, 255] = Some (0, 0, 0)
   \<and> map_option dominantColor
       (dominantScan [10, 10, 10, 255, 200, 200, 200, 255, 200, 200, 200, 255, 10, 10, 10, 255]
          0 initial_scan)
     = Some (200, 200, 200)
   \<and> spec_dominantColor
       [10, 10, 10, 255, 200, 200, 200, 255, 200, 200, 200, 255, 10, 10, 10, 255]
     = Some (10, 10, 10)"
proof -
  have "map_option dominantColor (dominantScan [0, 0, 0, 255, 1, 1, 1, 255] 0 initial_scan)
     = Some (1, 1, 1)"
    by (simp add: dominantScan.simps tally_def initial_scan_def quantize_eval Let_def)
  moreover have "spec_dominantColor [0, 0, 0, 255, 1, 1, 1, 255] = Some (0, 0, 0)"
    by (simp add: spec_dominantColor_def pixelAt_def bucket_def quantize_eval Let_def upt_rec)
  moreover have "map_option dominantColor
       (dominantScan [10, 10, 10, 255, 200, 200, 200, 255, 200, 200, 200, 255, 10, 10, 10, 255]
          0 initial_scan)
     = Some (200, 200, 200)"
    by (simp add: dominantScan.simps tally_def initial_scan_def quantize_eval Let_def)
  moreover have "spec_dominantColor
       [10, 10, 10, 255, 200, 200, 200, 255, 200, 200, 200, 255, 10, 10, 10, 255]
     = Some (10, 10, 10)"
    by (simp add: spec_dominantColor_def pixelAt_def bucket_def quantize_eval Let_def upt_rec)
  ultimately show ?thesis by (intro conjI)
qed

text \<open>
  Claim C1, amended. Each pixel's channels are quantized by \<open>round(v / 10) * 10\<close> and
  the buckets are tallied; on a buffer of whole pixels that is not empty the scan returns,
  at its original precision, the pixel \<open>k\<close> at which a tally first reached the final
  maximum. Its bucket is a most frequent one, \<open>k\<close> is the last pixel of that bucket (not
  the first seen), and no bucket has reached the maximum before \<open>k\<close>: among equally
  frequent buckets the one that reaches the maximal count first wins.
\<close>

theorem dominant_color_last_raise:
  assumes "4 dvd length data" and "data \<noteq> []"
  shows "\<exists>st k. dominantScan data 0 initial_scan = Some st
           \<and> k < length data div 4
           \<and> dominantColor st = pixelAt data k
           \<and> (\<forall>key. colorCounts st key =
                 (if occurrences data key (length data div 4) = 0 then None
                  else Some (occurrences data key (length data div 4))))
           \<and> maxCount st = occurrences data (bucket (pixelAt data k)) (length data div 4)
           \<and> (\<forall>key. occurrences data key (length data div 4) \<le> maxCount st)
           \<and> occurrences data (bucket (pixelAt data k)) (Suc k) = maxCount st
           \<and> (\<forall>j. k < j \<and> j < length data div 4 \<longrightarrow>
                  bucket (pixelAt data j) \<noteq> bucket (pixelAt data k))
           \<and> (\<forall>key. occurrences data key k < maxCount st)"
proof -
  let ?n = "length data div 4"
  from assms(2) have "0 < length data" by simp
  with assms(1) have n: "?n \<noteq> 0" by presburger
  have "scanned data (0 div 4) initial_scan" by (simp add: scanned_initial)
  with assms(1) obtain st where st: "dominantScan data 0 initial_scan = Some st"
    and inv: "scanned data ?n st"
    using dominantScan_scanned [of data 0 initial_scan] by auto
  from inv n have cc: "\<forall>key. colorCounts st key =
      (if occurrences data key ?n = 0 then None else Some (occurrences data key ?n))"
    and le: "\<forall>key. occurrences data key ?n \<le> maxCount st"
    and "\<exists>k. k < ?n \<and> dominantColor st = pixelAt data k
                 \<and> occurrences data (bucket (pixelAt data k)) (Suc k) = maxCount st
                 \<and> (\<forall>key. occurrences data key k < maxCount st)"
    unfolding scanned_def by (simp_all only: if_False) blast+
  then obtain k where k: "k < ?n" "dominantColor st = pixelAt data k"
    "occurrences data (bucket (pixelAt data k)) (Suc k) = maxCount st"
    "\<forall>key. occurrences data key k < maxCount st"
    by blast
  from k(1) have "occurrences data (bucket (pixelAt data k)) (Suc k)
      \<le> occurrences data (bucket (pixelAt data k)) ?n"
    by (intro occurrences_mono) simp
  moreover from le have "occurrences data (bucket (pixelAt data k)) ?n \<le> maxCount st"
    by blast
  ultimately have m: "maxCount st = occurrences data (bucket (pixelAt data k)) ?n"
    using k(3) by simp
  with k(3) have "occurrences data (bucket (pixelAt data k)) (Suc k)
      = occurrences data (bucket (pixelAt data k)) ?n"
    by simp
  then have "\<forall>j. k < j \<and> j < ?n \<longrightarrow> bucket (pixelAt data j) \<noteq> bucket (pixelAt data k)"
    using occurrences_last by blast
  with st k cc le m show ?thesis by blast
qed

theorem dominant_color_last_raise_witness:
  "4 dvd length [0, 0, 0, 255, 1, 1, 1, 255 :: nat]
   \<and> [0, 0, 0, 255, 1, 1, 1, 255 :: nat] \<noteq> []
   \<and> (\<exists>st k. dominantScan [0, 0, 0, 255, 1, 1, 1, 255] 0 initial_scan = Some st
        \<and> k < length [0, 0, 0, 255, 1, 1, 1, 255 :: nat] div 4
        \<and> dominantColor st = pixelAt [0, 0, 0, 255, 1, 1, 1, 255] k
        \<and> occurrences [0, 0, 0, 255, 1, 1, 1, 255]
            (bucket (pixelAt [0, 0, 0, 255, 1, 1, 1, 255] k)) (Suc k) = maxCount st)"
proof -
  let ?d = "[0, 0, 0, 255, 1, 1, 1, 255 :: nat]"
  have "length ?d = 4 * 2" by simp
  then have a: "4 dvd length ?d" by (simp only: dvd_triv_left)
  have b: "?d \<noteq> []" by simp
  from dominant_color_last_raise [OF a b] have "\<exists>st k. dominantScan ?d 0 initial_scan = Some st
        \<and> k < length ?d div 4
        \<and> dominantColor st = pixelAt ?d k
        \<and> occurrences ?d (bucket (pixelAt ?d k)) (Suc k) = maxCount st"
    by blast
  with a b show ?thesis by (intro conjI)
qed

subsection \<open>The tracks of the palette\<close>





end
